theory Spec2Isabelle
  imports Main
begin

section \<open>JavaScript strings\<close>

text \<open>
  A JavaScript string is a sequence of UTF-16 code units. A code unit is modelled by its
  number; \<open>js ''abc''\<close> writes a literal. A string is truthy iff it is not empty.

  \<open>String.prototype.toUpperCase\<close> belongs to the language runtime, not to the repository
  (it maps by the Unicode tables and may change the length of a string). Every function that
  calls it takes it as the parameter \<open>up\<close>, and the theorems hold for every such function.
  \<open>toUpperCaseAscii\<close> is its restriction to ASCII input and serves as the instance at
  concrete inputs.
\<close>

type_synonym code_unit = nat
type_synonym jsstring = "code_unit list"

abbreviation js :: "string \<Rightarrow> jsstring" where
  "js s \<equiv> map of_char s"

definition truthy :: "jsstring \<Rightarrow> bool" where
  "truthy s \<longleftrightarrow> s \<noteq> []"

definition asciiUpper :: "code_unit \<Rightarrow> code_unit" where
  "asciiUpper c = (if of_char CHR ''a'' \<le> c \<and> c \<le> of_char CHR ''z'' then c - 32 else c)"

definition toUpperCaseAscii :: "jsstring \<Rightarrow> jsstring" where
  "toUpperCaseAscii s = map asciiUpper s"

section \<open>The two patterns\<close>

text \<open>
  \<open>/^[A-HJ-NPR-Z0-9]{17}$/\<close> (vinService \<open>isValidVinFormat\<close>, Scanner \<open>VIN_PATTERN\<close>, the
  server's \<open>vinPattern\<close>: the same literal three times) and Scanner's \<open>BARCODE_PATTERN\<close>,
  8 to 14 decimal digits between \<open>^\<close> and \<open>$\<close>. Neither has a flag, so \<open>^\<close> and \<open>$\<close> anchor at the two ends of the
  input: the whole string is a run of characters of one class, with a counted length.
\<close>

definition between :: "char \<Rightarrow> char \<Rightarrow> code_unit \<Rightarrow> bool" where
  "between a b c \<longleftrightarrow> of_char a \<le> c \<and> c \<le> of_char b"

definition classRun :: "(code_unit \<Rightarrow> bool) \<Rightarrow> nat \<Rightarrow> nat \<Rightarrow> jsstring \<Rightarrow> bool" where
  "classRun cls lo hi s \<longleftrightarrow> lo \<le> length s \<and> length s \<le> hi \<and> list_all cls s"

definition vinClass :: "code_unit \<Rightarrow> bool" where
  "vinClass c \<longleftrightarrow>
     between CHR ''A'' CHR ''H'' c \<or> between CHR ''J'' CHR ''N'' c \<or> c = of_char CHR ''P'' \<or>
     between CHR ''R'' CHR ''Z'' c \<or> between CHR ''0'' CHR ''9'' c"

definition digitClass :: "code_unit \<Rightarrow> bool" where
  "digitClass c \<longleftrightarrow> between CHR ''0'' CHR ''9'' c"

definition VIN_PATTERN :: "jsstring \<Rightarrow> bool" where
  "VIN_PATTERN s \<longleftrightarrow> classRun vinClass 17 17 s"

definition BARCODE_PATTERN :: "jsstring \<Rightarrow> bool" where
  "BARCODE_PATTERN s \<longleftrightarrow> classRun digitClass 8 14 s"

text \<open>The grammar in the specification's words: 17 characters of \<open>[A-Z0-9]\<close>, none of them
  I, O or Q.\<close>

definition specVinChar :: "code_unit \<Rightarrow> bool" where
  "specVinChar c \<longleftrightarrow>
     (between CHR ''A'' CHR ''Z'' c \<or> between CHR ''0'' CHR ''9'' c) \<and>
     c \<noteq> of_char CHR ''I'' \<and> c \<noteq> of_char CHR ''O'' \<and> c \<noteq> of_char CHR ''Q''"

definition specVinGrammar :: "jsstring \<Rightarrow> bool" where
  "specVinGrammar s \<longleftrightarrow> length s = 17 \<and> (\<forall>c \<in> set s. specVinChar c)"

section \<open>The VIN service (src/services/vinService.ts)\<close>

text \<open>The field \<open>make\<close> is written \<open>vmake\<close>: \<open>make\<close> is taken by the record package.\<close>

record VehicleInfo =
  vin :: jsstring
  year :: jsstring
  vmake :: jsstring
  model :: jsstring
  trim :: "jsstring option"
  engine :: "jsstring option"
  displacement :: "jsstring option"
  cylinders :: "jsstring option"
  fuel_type :: "jsstring option"
  vehicle_type :: "jsstring option"
  body_class :: "jsstring option"
  drive_type :: "jsstring option"
  transmission :: "jsstring option"
  manufacturer :: "jsstring option"
  plant_city :: "jsstring option"
  plant_state :: "jsstring option"
  valid :: bool
  cached_at :: "jsstring option"
  error :: "jsstring option"

text \<open>The object literal \<open>{vin, year: '', make: '', model: '', valid: false, error}\<close> that
  \<open>decodeVin\<close> builds twice; every other property is absent.\<close>

definition failureInfo :: "jsstring \<Rightarrow> jsstring \<Rightarrow> VehicleInfo" where
  "failureInfo v msg =
     \<lparr>vin = v, year = [], vmake = [], model = [],
      trim = None, engine = None, displacement = None, cylinders = None, fuel_type = None,
      vehicle_type = None, body_class = None, drive_type = None, transmission = None,
      manufacturer = None, plant_city = None, plant_state = None,
      valid = False, cached_at = None, error = Some msg\<rparr>"

text \<open>A row of the registry's \<open>Results\<close> table; \<open>Value\<close> is a string or \<open>null\<close>.\<close>

record nhtsa_row =
  Variable :: jsstring
  Value :: "jsstring option"

text \<open>What a \<open>fetch\<close> can do. The promise rejects, or it resolves to a response with a status
  whose \<open>json()\<close> gives a body or rejects (body \<open>None\<close>). The registry's body is an object
  whose \<open>Results\<close> is a table or is missing. The dynamic \<open>import\<close> in front of the proxy call
  can reject as well.\<close>

datatype backend_reply =
    ImportRejects
  | BackendFetchRejects
  | BackendResponse nat "VehicleInfo option"

datatype nhtsa_reply =
    NhtsaFetchRejects
  | NhtsaResponse nat "nhtsa_row list option option"

record net =
  backendReply :: backend_reply
  nhtsaReply :: nhtsa_reply
  isoNow :: jsstring

datatype fault =
    ModuleFault
  | NetworkFault
  | BodyFault
  | BackendStatusFault nat
  | NhtsaApiFault

datatype 'a outcome = Resolved 'a | Rejected fault

datatype request = PostDecodeVin jsstring jsstring | GetNhtsa jsstring

text \<open>The service object and what it acts on: its \<open>cache\<close> map, the pending \<open>setTimeout\<close>
  callbacks (due time in ms, key to delete), the clock, and the log of requests sent.\<close>

record client =
  cache :: "jsstring \<rightharpoonup> VehicleInfo"
  timers :: "(nat \<times> jsstring) list"
  clock :: nat
  sent :: "request list"

definition response_ok :: "nat \<Rightarrow> bool" where
  "response_ok status \<longleftrightarrow> 200 \<le> status \<and> status \<le> 299"

definition isValidVinFormat :: "(jsstring \<Rightarrow> jsstring) \<Rightarrow> jsstring \<Rightarrow> bool" where
  "isValidVinFormat up v = VIN_PATTERN (up v)"

text \<open>\<open>results.find(r => r.Variable === variableName)\<close>, then \<open>result?.Value || ''\<close>.\<close>

definition findResult :: "nhtsa_row list \<Rightarrow> jsstring \<Rightarrow> jsstring" where
  "findResult results variableName =
     (case find (\<lambda>r. Variable r = variableName) results of
        None \<Rightarrow> []
      | Some r \<Rightarrow> (case Value r of None \<Rightarrow> [] | Some s \<Rightarrow> s))"

definition extractVehicle :: "jsstring \<Rightarrow> nhtsa_row list \<Rightarrow> jsstring \<Rightarrow> VehicleInfo" where
  "extractVehicle v results stamp =
     \<lparr>vin = v,
      year = findResult results (js ''Model Year''),
      vmake = findResult results (js ''Make''),
      model = findResult results (js ''Model''),
      trim = Some (findResult results (js ''Trim'')),
      engine = Some (findResult results (js ''Engine Model'')),
      displacement = Some (findResult results (js ''Displacement (L)'')),
      cylinders = Some (findResult results (js ''Engine Number of Cylinders'')),
      fuel_type = Some (findResult results (js ''Fuel Type - Primary'')),
      vehicle_type = Some (findResult results (js ''Vehicle Type'')),
      body_class = Some (findResult results (js ''Body Class'')),
      drive_type = Some (findResult results (js ''Drive Type'')),
      transmission = Some (findResult results (js ''Transmission Style'')),
      manufacturer = Some (findResult results (js ''Manufacturer Name'')),
      plant_city = Some (findResult results (js ''Plant City'')),
      plant_state = Some (findResult results (js ''Plant State'')),
      valid = False,
      cached_at = Some stamp,
      error = None\<rparr>"

definition requiredData :: "VehicleInfo \<Rightarrow> bool" where
  "requiredData r \<longleftrightarrow> truthy (year r) \<and> truthy (vmake r) \<and> truthy (model r)"

definition directNhtsaCall :: "net \<Rightarrow> jsstring \<Rightarrow> client \<Rightarrow> VehicleInfo outcome \<times> client" where
  "directNhtsaCall nw v st =
     (let st1 = st\<lparr>sent := sent st @ [GetNhtsa v]\<rparr> in
      case nhtsaReply nw of
        NhtsaFetchRejects \<Rightarrow> (Rejected NetworkFault, st1)
      | NhtsaResponse status body \<Rightarrow>
          if \<not> response_ok status then (Rejected NhtsaApiFault, st1)
          else (case body of
                  None \<Rightarrow> (Rejected BodyFault, st1)
                | Some d \<Rightarrow>
                    let results = (case d of None \<Rightarrow> [] | Some rs \<Rightarrow> rs);
                        vehicleInfo = extractVehicle v results (isoNow nw);
                        vehicleInfo = vehicleInfo\<lparr>valid := requiredData vehicleInfo\<rparr>;
                        vehicleInfo = (if \<not> valid vehicleInfo
                                       then vehicleInfo\<lparr>error := Some (js ''Vehicle information not found'')\<rparr>
                                       else vehicleInfo)
                    in (Resolved vehicleInfo, st1\<lparr>cache := (cache st1)(v \<mapsto> vehicleInfo)\<rparr>)))"

text \<open>The \<open>if (accessToken)\<close> branch of the \<open>try\<close> block: the proxy call.\<close>

definition backendCall :: "net \<Rightarrow> jsstring \<Rightarrow> jsstring \<Rightarrow> client \<Rightarrow> VehicleInfo outcome \<times> client" where
  "backendCall nw accessToken normalizedVin st =
     (case backendReply nw of
        ImportRejects \<Rightarrow> (Rejected ModuleFault, st)
      | BackendFetchRejects \<Rightarrow>
          (Rejected NetworkFault, st\<lparr>sent := sent st @ [PostDecodeVin accessToken normalizedVin]\<rparr>)
      | BackendResponse status body \<Rightarrow>
          (let st1 = st\<lparr>sent := sent st @ [PostDecodeVin accessToken normalizedVin]\<rparr> in
           if \<not> response_ok status then (Rejected (BackendStatusFault status), st1)
           else (case body of
                   None \<Rightarrow> (Rejected BodyFault, st1)
                 | Some vehicleData \<Rightarrow>
                     (Resolved vehicleData,
                      st1\<lparr>cache := (cache st1)(normalizedVin \<mapsto> vehicleData)\<rparr>))))"

text \<open>\<open>accessToken?: string\<close> is \<open>None\<close> when left out; \<open>if (accessToken)\<close> also fails on the
  empty string.\<close>

definition hasToken :: "jsstring option \<Rightarrow> bool" where
  "hasToken tok \<longleftrightarrow> (case tok of None \<Rightarrow> False | Some t \<Rightarrow> truthy t)"

definition decodeVin ::
  "(jsstring \<Rightarrow> jsstring) \<Rightarrow> net \<Rightarrow> jsstring \<Rightarrow> jsstring option \<Rightarrow> client
     \<Rightarrow> VehicleInfo outcome \<times> client" where
  "decodeVin up nw v accessToken st =
     (if \<not> isValidVinFormat up v
      then (Resolved (failureInfo (up v) (js ''Invalid VIN format'')), st)
      else
        let normalizedVin = up v in
        case cache st normalizedVin of
          Some cached \<Rightarrow> (Resolved cached, st)
        | None \<Rightarrow>
            (case (if hasToken accessToken
                   then backendCall nw (the accessToken) normalizedVin st
                   else directNhtsaCall nw normalizedVin st) of
               (Resolved r, st1) \<Rightarrow> (Resolved r, st1)
             | (Rejected e, st1) \<Rightarrow>
                 if hasToken accessToken then directNhtsaCall nw normalizedVin st1
                 else
                   let errorInfo = failureInfo normalizedVin (js ''Failed to decode VIN'') in
                   (Resolved errorInfo,
                    st1\<lparr>timers := timers st1 @ [(clock st1 + 5 * 60 * 1000, normalizedVin)],
                        cache := (cache st1)(normalizedVin \<mapsto> errorInfo)\<rparr>)))"

definition clearCache :: "client \<Rightarrow> client" where
  "clearCache st = st\<lparr>cache := Map.empty\<rparr>"

text \<open>A call of \<open>decodeVin\<close> is taken at one instant of the clock, with its awaits. Time
  passing between two calls: the clock advances by \<open>d\<close> ms and every timer that is due by
  then has run its callback \<open>this.cache.delete(normalizedVin)\<close>.\<close>

definition dueBy :: "nat \<Rightarrow> (nat \<times> jsstring) list \<Rightarrow> jsstring \<Rightarrow> bool" where
  "dueBy t ts k \<longleftrightarrow> list_ex (\<lambda>(w, k'). w \<le> t \<and> k' = k) ts"

definition elapse :: "nat \<Rightarrow> client \<Rightarrow> client" where
  "elapse d st =
     (let t = clock st + d in
      st\<lparr>clock := t,
         timers := filter (\<lambda>(w, k). \<not> w \<le> t) (timers st),
         cache := (\<lambda>k. if dueBy t (timers st) k then None else cache st k)\<rparr>)"

definition newClient :: client where
  "newClient = \<lparr>cache = Map.empty, timers = [], clock = 0, sent = []\<rparr>"

datatype action = Decode net jsstring "jsstring option" | Elapse nat | ClearCache

definition perform :: "(jsstring \<Rightarrow> jsstring) \<Rightarrow> client \<Rightarrow> action \<Rightarrow> client" where
  "perform up st a =
     (case a of
        Decode nw v accessToken \<Rightarrow> snd (decodeVin up nw v accessToken st)
      | Elapse d \<Rightarrow> elapse d st
      | ClearCache \<Rightarrow> clearCache st)"

definition run :: "(jsstring \<Rightarrow> jsstring) \<Rightarrow> client \<Rightarrow> action list \<Rightarrow> client" where
  "run up st acts = foldl (perform up) st acts"

subsection \<open>Properties of states and of replies\<close>

definition backendFails :: "net \<Rightarrow> bool" where
  "backendFails nw \<longleftrightarrow>
     (case backendReply nw of
        ImportRejects \<Rightarrow> True
      | BackendFetchRejects \<Rightarrow> True
      | BackendResponse status body \<Rightarrow> \<not> response_ok status \<or> body = None)"

definition nhtsaFails :: "net \<Rightarrow> bool" where
  "nhtsaFails nw \<longleftrightarrow>
     (case nhtsaReply nw of
        NhtsaFetchRejects \<Rightarrow> True
      | NhtsaResponse status body \<Rightarrow> \<not> response_ok status \<or> body = None)"

definition consistent :: "VehicleInfo \<Rightarrow> bool" where
  "consistent r \<longleftrightarrow> (valid r \<longleftrightarrow> year r \<noteq> [] \<and> vmake r \<noteq> [] \<and> model r \<noteq> [])"

definition allConsistent :: "(jsstring \<rightharpoonup> VehicleInfo) \<Rightarrow> bool" where
  "allConsistent m \<longleftrightarrow> (\<forall>k r. m k = Some r \<longrightarrow> consistent r)"

definition keysValid :: "(jsstring \<rightharpoonup> VehicleInfo) \<Rightarrow> bool" where
  "keysValid m \<longleftrightarrow> (\<forall>k. m k \<noteq> None \<longrightarrow> VIN_PATTERN k)"

definition noTimerFor :: "jsstring \<Rightarrow> client \<Rightarrow> bool" where
  "noTimerFor k st \<longleftrightarrow> \<not> list_ex (\<lambda>(w, k'). k' = k) (timers st)"

text \<open>Every pending timer is for a key that is in the cache, and no key has two timers.\<close>

definition timersCached :: "client \<Rightarrow> bool" where
  "timersCached st \<longleftrightarrow>
     distinct (map snd (timers st)) \<and> list_all (\<lambda>(w, k). cache st k \<noteq> None) (timers st)"

section \<open>The decode endpoint of the server (src/supabase/functions/server/index.tsx)\<close>

text \<open>
  \<open>POST /decode-vin\<close> behind \<open>requireAuth\<close>. \<open>authError\<close> is the message of the 401 reply of
  \<open>requireAuth\<close>, if it rejects. \<open>reqBody\<close> is the request's JSON: \<open>None\<close> when \<open>c.req.json()\<close>
  rejects, otherwise its \<open>vin\<close> property (a string, or missing). The store \<open>kv\<close> is the part of
  the key-value store under the prefix \<open>vehicle:\<close>, which only this handler writes.
\<close>

datatype reply_body = VehicleJson VehicleInfo | ErrorJson jsstring

definition apiErrorReply ::
  "jsstring \<Rightarrow> jsstring \<Rightarrow> (jsstring \<rightharpoonup> VehicleInfo)
     \<Rightarrow> (nat \<times> reply_body) \<times> (jsstring \<rightharpoonup> VehicleInfo)" where
  "apiErrorReply normalizedVin stamp kv =
     (let errorResponse =
            (failureInfo normalizedVin (js ''Failed to decode VIN via NHTSA API''))
              \<lparr>cached_at := Some stamp\<rparr>
      in ((500, VehicleJson errorResponse), kv(normalizedVin \<mapsto> errorResponse)))"

definition decodeVinEndpoint ::
  "(jsstring \<Rightarrow> jsstring) \<Rightarrow> jsstring option \<Rightarrow> jsstring option option \<Rightarrow> nhtsa_reply \<Rightarrow> jsstring
     \<Rightarrow> (jsstring \<rightharpoonup> VehicleInfo) \<Rightarrow> (nat \<times> reply_body) \<times> (jsstring \<rightharpoonup> VehicleInfo)" where
  "decodeVinEndpoint up authError reqBody registry stamp kv =
     (case authError of
        Some msg \<Rightarrow> ((401, ErrorJson msg), kv)
      | None \<Rightarrow>
     (case reqBody of
        None \<Rightarrow> ((500, ErrorJson (js ''Failed to decode VIN'')), kv)
      | Some None \<Rightarrow> ((400, ErrorJson (js ''VIN is required'')), kv)
      | Some (Some v) \<Rightarrow>
          if \<not> truthy v then ((400, ErrorJson (js ''VIN is required'')), kv)
          else if \<not> VIN_PATTERN (up v)
          then ((400, ErrorJson (js ''Invalid VIN format. VIN must be 17 characters.'')), kv)
          else
            let normalizedVin = up v in
            (case kv normalizedVin of
              Some cachedVehicle \<Rightarrow> ((200, VehicleJson cachedVehicle), kv)
            | None \<Rightarrow>
                (case registry of
                   NhtsaFetchRejects \<Rightarrow> apiErrorReply normalizedVin stamp kv
                 | NhtsaResponse status body \<Rightarrow>
                     if \<not> response_ok status then apiErrorReply normalizedVin stamp kv
                     else (case body of
                             None \<Rightarrow> apiErrorReply normalizedVin stamp kv
                           | Some d \<Rightarrow>
                               let results = (case d of None \<Rightarrow> [] | Some rs \<Rightarrow> rs);
                                   vehicleData = extractVehicle normalizedVin results stamp;
                                   hasRequiredData = requiredData vehicleData;
                                   vehicleData = vehicleData\<lparr>valid := hasRequiredData\<rparr>;
                                   vehicleData =
                                     (if \<not> hasRequiredData
                                      then vehicleData\<lparr>error :=
                                             Some (js ''Vehicle information not found for this VIN'')\<rparr>
                                      else vehicleData)
                               in ((200, VehicleJson vehicleData),
                                   kv(normalizedVin \<mapsto> vehicleData)))))))"

text \<open>The proxy's reply as the client's \<open>fetch\<close> sees it: a successful status carries the
  vehicle object that the endpoint sent.\<close>

definition fromEndpoint :: "(jsstring \<Rightarrow> jsstring) \<Rightarrow> backend_reply \<Rightarrow> bool" where
  "fromEndpoint up b \<longleftrightarrow>
     (\<forall>status vehicleData. b = BackendResponse status (Some vehicleData) \<and> response_ok status \<longrightarrow>
        (\<exists>authError reqBody registry stamp kv.
           allConsistent kv \<and>
           fst (decodeVinEndpoint up authError reqBody registry stamp kv) =
             (status, VehicleJson vehicleData)))"

section \<open>The scanner (src/components/Scanner.tsx)\<close>

text \<open>The property \<open>type\<close> of a scan result is written \<open>rtype\<close>.\<close>

datatype scan_type = Barcode | Vin

record scan_result =
  rtype :: scan_type
  data :: jsstring


text \<open>
  The component's state as far as scanning goes: the \<open>lastScan\<close> state variable, whether the
  interval of \<open>scanIntervalRef\<close> is running, \<open>isScanning\<close>, and the calls made to the
  properties \<open>onScan\<close> and \<open>onClose\<close>.
\<close>

record scanner =
  lastScan :: jsstring
  intervalActive :: bool
  isScanning :: bool
  scanned :: "scan_result list"
  closed :: nat

text \<open>
  The callback of \<open>setInterval\<close> is a closure of the render that started the interval, and
  \<open>lastScan\<close> is a state variable of the component: what the callback compares a payload
  with is the value of \<open>lastScan\<close> in that render, the same at every tick of the session,
  whatever \<open>setLastScan\<close> has stored since. It is the parameter \<open>captured\<close> below (the empty
  string when the scanner opens). \<open>scanIntervalRef\<close> is a ref, so \<open>stopCamera\<close> clears the
  interval that is running.
\<close>

text \<open>Number to string, for a non-negative integer below \<open>10^21\<close>: its decimal digits.\<close>

fun decimal :: "nat \<Rightarrow> jsstring" where
  "decimal n = (if n < 10 then [of_char CHR ''0'' + n]
                else decimal (n div 10) @ [of_char CHR ''0'' + n mod 10])"

declare decimal.simps [simp del]

definition stopCamera :: "scanner \<Rightarrow> scanner" where
  "stopCamera st = st\<lparr>isScanning := False, intervalActive := False\<rparr>"

definition validResult :: "scan_result \<Rightarrow> bool" where
  "validResult result =
     (case rtype result of
        Vin \<Rightarrow> VIN_PATTERN (data result)
      | Barcode \<Rightarrow> BARCODE_PATTERN (data result))"

definition handleScanResult :: "scan_result \<Rightarrow> scanner \<Rightarrow> scanner" where
  "handleScanResult result st =
     (let isValid = validResult result in
      if isValid
      then (let st1 = st\<lparr>scanned := scanned st @ [result]\<rparr>;
                st2 = stopCamera st1
            in st2\<lparr>closed := closed st2 + 1\<rparr>)
      else st)"


definition vinPrefixes :: "jsstring list" where
  "vinPrefixes = [js ''1HGBH41JX'', js ''2FMDK3GC4'', js ''5NPE34AF4'', js ''1G1BE5SM7'',
                  js ''WBAFR7C59'']"

definition detectVinPatterns :: "bool \<Rightarrow> nat \<Rightarrow> nat \<Rightarrow> jsstring option" where
  "detectVinPatterns hasTextLikeRegions prefixDraw suffixDraw =
     (if hasTextLikeRegions
      then (let prefix = vinPrefixes ! prefixDraw;
                suffix = suffixDraw + 100000
            in Some (prefix @ decimal suffix))
      else None)"



record frame =
  barcodeLike :: bool
  barcodeDraw :: nat
  textLike :: bool
  prefixDraw :: nat
  suffixDraw :: nat
  demoGate :: bool
  demoDraw :: nat

text \<open>The block that each of the three methods ends in:
  \<open>if (x !== lastScan) { setLastScan(x); handleScanResult(...); return; }\<close>.
  \<open>None\<close> means that the block did not return.\<close>

definition offer :: "jsstring \<Rightarrow> scan_result \<Rightarrow> scanner \<Rightarrow> scanner option" where
  "offer seen result st =
     (if data result \<noteq> seen
      then Some (handleScanResult result (st\<lparr>lastScan := data result\<rparr>))
      else None)"






text \<open>The dispatcher on its own: one candidate after the other reaches the block \<open>offer\<close>, as
  long as the interval runs.\<close>

definition onCandidate :: "jsstring \<Rightarrow> scanner \<Rightarrow> scan_result \<Rightarrow> scanner" where
  "onCandidate captured st c =
     (if \<not> intervalActive st then st
      else case offer captured c st of Some st' \<Rightarrow> st' | None \<Rightarrow> st)"

definition dispatch :: "jsstring \<Rightarrow> scanner \<Rightarrow> scan_result list \<Rightarrow> scanner" where
  "dispatch captured st cs = foldl (onCandidate captured) st cs"







definition startScanning :: scanner where
  "startScanning = \<lparr>lastScan = [], intervalActive = True, isScanning = True, scanned = [],
                    closed = 0\<rparr>"

section \<open>Concrete inputs\<close>

definition civicVin :: jsstring where
  "civicVin = js ''1HGBH41JXMN109186''"

definition civicRows :: "nhtsa_row list" where
  "civicRows = [\<lparr>Variable = js ''Model Year'', Value = Some (js ''2010'')\<rparr>,
                \<lparr>Variable = js ''Make'', Value = Some (js ''Honda'')\<rparr>,
                \<lparr>Variable = js ''Model'', Value = Some (js ''Civic'')\<rparr>]"

definition civicNet :: net where
  "civicNet = \<lparr>backendReply = BackendResponse 500 None,
               nhtsaReply = NhtsaResponse 200 (Some (Some civicRows)),
               isoNow = js ''2025-01-01T00:00:00.000Z''\<rparr>"

definition downNet :: net where
  "downNet = \<lparr>backendReply = BackendFetchRejects, nhtsaReply = NhtsaFetchRejects,
              isoNow = js ''2025-01-01T00:00:00.000Z''\<rparr>"

definition notFoundNet :: net where
  "notFoundNet = \<lparr>backendReply = BackendFetchRejects,
                  nhtsaReply = NhtsaResponse 200 (Some (Some [])),
                  isoNow = js ''2025-01-01T00:00:00.000Z''\<rparr>"

definition civicInfo :: VehicleInfo where
  "civicInfo = (extractVehicle civicVin civicRows (js ''2025-01-01T00:00:00.000Z''))\<lparr>valid := True\<rparr>"

definition lowerVin :: jsstring where
  "lowerVin = js ''1hgbh41jxmn109186''"

definition heldFailure :: client where
  "heldFailure = newClient\<lparr>cache := [civicVin \<mapsto> failureInfo civicVin (js ''Failed to decode VIN'')],
                            timers := [(300000, civicVin)]\<rparr>"

definition notFoundInfo :: VehicleInfo where
  "notFoundInfo = (extractVehicle civicVin [] (js ''2025-01-01T00:00:00.000Z''))
                    \<lparr>error := Some (js ''Vehicle information not found'')\<rparr>"

definition proxyNet :: net where
  "proxyNet = \<lparr>backendReply = BackendResponse 200 (Some civicInfo),
               nhtsaReply = NhtsaFetchRejects,
               isoNow = js ''2025-01-02T00:00:00.000Z''\<rparr>"

definition shortVin :: jsstring where
  "shortVin = js ''SHORT123''"

definition errorInfoRec :: VehicleInfo where
  "errorInfoRec = failureInfo civicVin (js ''Failed to decode VIN'')"

definition afterFailure :: client where
  "afterFailure = newClient\<lparr>sent := [GetNhtsa civicVin], timers := [(300000, civicVin)],
                             cache := [civicVin \<mapsto> errorInfoRec]\<rparr>"

definition afterNotFound :: client where
  "afterNotFound = newClient\<lparr>sent := [GetNhtsa civicVin], cache := [civicVin \<mapsto> notFoundInfo]\<rparr>"

definition mockVin :: jsstring where
  "mockVin = js ''1HGBH41JX100000''"





definition heldCandidates :: "scan_result list" where
  "heldCandidates = [\<lparr>rtype = Vin, data = mockVin\<rparr>, \<lparr>rtype = Vin, data = mockVin\<rparr>,
                     \<lparr>rtype = Vin, data = civicVin\<rparr>]"

section \<open>Auxiliary facts\<close>

lemma vinClass_spec: "vinClass c \<longleftrightarrow> specVinChar c"
  unfolding vinClass_def specVinChar_def between_def by simp arith

lemma VIN_PATTERN_spec: "VIN_PATTERN s \<longleftrightarrow> specVinGrammar s"
  by (auto simp: VIN_PATTERN_def classRun_def specVinGrammar_def list_all_iff vinClass_spec)

lemmas pattern_eval = VIN_PATTERN_def BARCODE_PATTERN_def classRun_def vinClass_def digitClass_def
  between_def isValidVinFormat_def toUpperCaseAscii_def asciiUpper_def

lemma directNhtsaCall_fst: "fst (directNhtsaCall nw k st) = fst (directNhtsaCall nw k st2)"
  by (simp add: directNhtsaCall_def Let_def split: nhtsa_reply.splits option.splits)

lemma directNhtsaCall_sent: "sent (snd (directNhtsaCall nw k st)) = sent st @ [GetNhtsa k]"
  by (simp add: directNhtsaCall_def Let_def split: nhtsa_reply.splits option.splits)

lemma directNhtsaCall_resolved:
  "directNhtsaCall nw k st = (Resolved r, st') \<Longrightarrow>
     st' = st\<lparr>sent := sent st @ [GetNhtsa k], cache := (cache st)(k \<mapsto> r)\<rparr> \<and> consistent r \<and> \<not> nhtsaFails nw"
  by (auto simp: directNhtsaCall_def Let_def consistent_def requiredData_def truthy_def nhtsaFails_def
      split: nhtsa_reply.splits option.splits if_splits)

lemma directNhtsaCall_rejected:
  "directNhtsaCall nw k st = (Rejected e, st') \<Longrightarrow> st' = st\<lparr>sent := sent st @ [GetNhtsa k]\<rparr> \<and> nhtsaFails nw"
  by (auto simp: directNhtsaCall_def Let_def nhtsaFails_def split: nhtsa_reply.splits option.splits if_splits)

lemma backendCall_fails:
  "backendFails nw \<Longrightarrow> \<exists>e. backendCall nw t k st =
     (Rejected e, st\<lparr>sent := sent st @ (if backendReply nw = ImportRejects then [] else [PostDecodeVin t k])\<rparr>)"
  by (auto simp: backendFails_def backendCall_def Let_def split: backend_reply.splits)

lemma backendCall_resolved:
  "backendCall nw t k st = (Resolved r, st') \<Longrightarrow>
     st' = st\<lparr>sent := sent st @ [PostDecodeVin t k], cache := (cache st)(k \<mapsto> r)\<rparr>
     \<and> (\<exists>status. backendReply nw = BackendResponse status (Some r) \<and> response_ok status)"
  by (auto simp: backendCall_def Let_def split: backend_reply.splits option.splits if_splits)

lemma backendCall_rejected:
  "backendCall nw t k st = (Rejected e, st') \<Longrightarrow> cache st' = cache st \<and> timers st' = timers st \<and> clock st' = clock st \<and> backendFails nw"
  by (auto simp: backendCall_def Let_def backendFails_def split: backend_reply.splits option.splits if_splits)

lemma failureInfo_consistent: "consistent (failureInfo k msg)"
  by (simp add: consistent_def failureInfo_def)

text \<open>Every way through decodeVin, as a case distinction on what it returns.\<close>

lemma decodeVin_cases:
  assumes "decodeVin up nw v tok st = (res, st')"
  shows "(\<not> isValidVinFormat up v \<and> res = Resolved (failureInfo (up v) (js ''Invalid VIN format'')) \<and> st' = st)
       \<or> (isValidVinFormat up v \<and> (\<exists>c. cache st (up v) = Some c \<and> res = Resolved c) \<and> st' = st)
       \<or> (isValidVinFormat up v \<and> cache st (up v) = None \<and> hasToken tok \<and>
            (\<exists>r status. res = Resolved r \<and> backendReply nw = BackendResponse status (Some r) \<and> response_ok status
               \<and> cache st' = (cache st)(up v \<mapsto> r) \<and> timers st' = timers st \<and> clock st' = clock st))
       \<or> (isValidVinFormat up v \<and> cache st (up v) = None \<and> hasToken tok \<and> backendFails nw \<and>
            (\<exists>r. res = Resolved r \<and> consistent r \<and> \<not> nhtsaFails nw
               \<and> cache st' = (cache st)(up v \<mapsto> r) \<and> timers st' = timers st \<and> clock st' = clock st))
       \<or> (isValidVinFormat up v \<and> cache st (up v) = None \<and> hasToken tok \<and> backendFails nw \<and> nhtsaFails nw \<and>
            (\<exists>e. res = Rejected e) \<and> cache st' = cache st \<and> timers st' = timers st \<and> clock st' = clock st)
       \<or> (isValidVinFormat up v \<and> cache st (up v) = None \<and> \<not> hasToken tok \<and>
            (\<exists>r. res = Resolved r \<and> consistent r \<and> \<not> nhtsaFails nw
               \<and> cache st' = (cache st)(up v \<mapsto> r) \<and> timers st' = timers st \<and> clock st' = clock st))
       \<or> (isValidVinFormat up v \<and> cache st (up v) = None \<and> \<not> hasToken tok \<and> nhtsaFails nw \<and>
            res = Resolved (failureInfo (up v) (js ''Failed to decode VIN''))
            \<and> cache st' = (cache st)(up v \<mapsto> failureInfo (up v) (js ''Failed to decode VIN''))
            \<and> timers st' = timers st @ [(clock st + 300000, up v)] \<and> clock st' = clock st)"
proof (cases "isValidVinFormat up v")
  case False
  with assms show ?thesis by (auto simp: decodeVin_def)
next
  case valid: True
  show ?thesis
  proof (cases "cache st (up v)")
    case (Some c)
    with valid assms show ?thesis by (auto simp: decodeVin_def Let_def)
  next
    case miss: None
    show ?thesis
    proof (cases "hasToken tok")
      case tok: True
      obtain o1 s1 where b: "backendCall nw (the tok) (up v) st = (o1, s1)" by force
      show ?thesis
      proof (cases o1)
        case (Resolved r)
        with b valid miss tok assms have "res = Resolved r" "st' = s1"
          by (auto simp: decodeVin_def Let_def)
        with backendCall_resolved[OF b[unfolded Resolved]] valid miss tok show ?thesis by auto
      next
        case (Rejected e)
        from backendCall_rejected[OF b[unfolded Rejected]]
        have s1: "cache s1 = cache st" "timers s1 = timers st" "clock s1 = clock st" "backendFails nw" by auto
        from b Rejected valid miss tok assms have d: "directNhtsaCall nw (up v) s1 = (res, st')"
          by (auto simp: decodeVin_def Let_def)
        show ?thesis
        proof (cases res)
          case (Resolved r)
          with directNhtsaCall_resolved[OF d[unfolded Resolved]] s1 valid miss tok show ?thesis by auto
        next
          case (Rejected e2)
          with directNhtsaCall_rejected[OF d[unfolded Rejected]] s1 valid miss tok show ?thesis by auto
        qed
      qed
    next
      case notok: False
      obtain o1 s1 where d: "directNhtsaCall nw (up v) st = (o1, s1)" by force
      show ?thesis
      proof (cases o1)
        case (Resolved r)
        with d valid miss notok assms have "res = Resolved r" "st' = s1"
          by (auto simp: decodeVin_def Let_def)
        with directNhtsaCall_resolved[OF d[unfolded Resolved]] valid miss notok show ?thesis by auto
      next
        case (Rejected e)
        with d valid miss notok assms
        have "res = Resolved (failureInfo (up v) (js ''Failed to decode VIN''))"
          "st' = s1\<lparr>timers := timers s1 @ [(clock s1 + 5 * 60 * 1000, up v)],
                    cache := (cache s1)(up v \<mapsto> failureInfo (up v) (js ''Failed to decode VIN''))\<rparr>"
          by (auto simp: decodeVin_def Let_def)
        with directNhtsaCall_rejected[OF d[unfolded Rejected]] valid miss notok show ?thesis by auto
      qed
    qed
  qed
qed

lemma civic_valid: "isValidVinFormat toUpperCaseAscii civicVin"
  by (simp add: civicVin_def pattern_eval)

lemma civic_upper: "toUpperCaseAscii civicVin = civicVin"
  by (simp add: civicVin_def pattern_eval)

lemma lower_valid: "isValidVinFormat toUpperCaseAscii lowerVin"
  by (simp add: lowerVin_def pattern_eval)

lemma lower_upper: "toUpperCaseAscii lowerVin = civicVin"
  by (simp add: lowerVin_def civicVin_def pattern_eval)

lemma civicInfo_fields: "valid civicInfo" "year civicInfo = js ''2010''" "vmake civicInfo = js ''Honda''"
  "model civicInfo = js ''Civic''" "vin civicInfo = civicVin" "error civicInfo = None"
  by (simp_all add: civicInfo_def extractVehicle_def findResult_def civicRows_def)

lemma civic_direct:
  "directNhtsaCall civicNet civicVin st =
     (Resolved civicInfo, st\<lparr>sent := sent st @ [GetNhtsa civicVin], cache := (cache st)(civicVin \<mapsto> civicInfo)\<rparr>)"
  by (simp add: directNhtsaCall_def civicNet_def response_ok_def Let_def civicInfo_def
      extractVehicle_def findResult_def civicRows_def requiredData_def truthy_def)

lemma civic_decode:
  "decodeVin toUpperCaseAscii civicNet civicVin None newClient =
     (Resolved civicInfo, newClient\<lparr>sent := [GetNhtsa civicVin], cache := [civicVin \<mapsto> civicInfo]\<rparr>)"
  by (simp add: decodeVin_def civic_valid civic_upper civic_direct Let_def hasToken_def newClient_def)


lemma decodeVin_rejected_iff:
  "(\<exists>e. fst (decodeVin up nw v tok st) = Rejected e) \<longleftrightarrow>
     isValidVinFormat up v \<and> cache st (up v) = None \<and> hasToken tok \<and> backendFails nw \<and> nhtsaFails nw"
proof
  assume "\<exists>e. fst (decodeVin up nw v tok st) = Rejected e"
  then obtain e st' where "decodeVin up nw v tok st = (Rejected e, st')"
    by (metis prod.collapse)
  from decodeVin_cases[OF this] show
    "isValidVinFormat up v \<and> cache st (up v) = None \<and> hasToken tok \<and> backendFails nw \<and> nhtsaFails nw"
    by auto
next
  assume a: "isValidVinFormat up v \<and> cache st (up v) = None \<and> hasToken tok \<and> backendFails nw \<and> nhtsaFails nw"
  obtain res st' where d: "decodeVin up nw v tok st = (res, st')" by force
  from decodeVin_cases[OF d] a have "\<exists>e. res = Rejected e"
    by (auto simp: backendFails_def)
  with d show "\<exists>e. fst (decodeVin up nw v tok st) = Rejected e" by simp
qed

lemma endpoint_consistent:
  assumes "allConsistent kv"
    and "decodeVinEndpoint up a rb reg stamp kv = ((status, VehicleJson b), kv')"
  shows "consistent b \<and> allConsistent kv'"
  using assms
  by (auto simp: decodeVinEndpoint_def apiErrorReply_def Let_def allConsistent_def consistent_def
      requiredData_def truthy_def failureInfo_def
      split: option.splits if_splits nhtsa_reply.splits)

lemma fromEndpoint_consistent:
  assumes "fromEndpoint up (backendReply nw)"
    and "backendReply nw = BackendResponse status (Some r)" and "response_ok status"
  shows "consistent r"
proof -
  from assms obtain a rb reg stamp kv where k: "allConsistent kv"
    and f: "fst (decodeVinEndpoint up a rb reg stamp kv) = (status, VehicleJson r)"
    unfolding fromEndpoint_def by blast
  obtain kv' where "decodeVinEndpoint up a rb reg stamp kv = ((status, VehicleJson r), kv')"
    using f by (metis prod.collapse)
  from endpoint_consistent[OF k this] show ?thesis by simp
qed

lemma allConsistent_upd: "allConsistent m \<Longrightarrow> consistent r \<Longrightarrow> allConsistent (m(k \<mapsto> r))"
  by (simp add: allConsistent_def)

lemma civic_required: "requiredData (extractVehicle civicVin civicRows stamp)"
  by (simp add: requiredData_def truthy_def extractVehicle_def findResult_def civicRows_def)

lemma civic_truthy: "truthy civicVin"
  by (simp add: truthy_def civicVin_def)

lemma proxy_fromEndpoint: "fromEndpoint toUpperCaseAscii (backendReply proxyNet)"
proof -
  have "fst (decodeVinEndpoint toUpperCaseAscii None (Some (Some civicVin))
               (NhtsaResponse 200 (Some (Some civicRows))) (js ''2025-01-01T00:00:00.000Z'') Map.empty)
          = (200, VehicleJson civicInfo)"
    using civic_valid [unfolded isValidVinFormat_def] civic_truthy
    by (simp add: decodeVinEndpoint_def civic_upper Let_def response_ok_def
        civicInfo_def civic_required)
  moreover have "allConsistent Map.empty" by (simp add: allConsistent_def)
  ultimately show ?thesis
    unfolding fromEndpoint_def proxyNet_def by (simp del: fst_conv) blast
qed

lemma keysValid_upd: "keysValid m \<Longrightarrow> VIN_PATTERN k \<Longrightarrow> keysValid (m(k \<mapsto> r))"
  by (simp add: keysValid_def)

lemma decodeVin_keysValid:
  assumes "keysValid (cache st)"
  shows "keysValid (cache (snd (decodeVin up nw v tok st)))"
proof -
  obtain res st' where d: "decodeVin up nw v tok st = (res, st')" by force
  from decodeVin_cases[OF d] assms have "keysValid (cache st')"
    by (elim disjE conjE exE) (auto simp: keysValid_upd isValidVinFormat_def)
  with d show ?thesis by simp
qed

lemma elapse_keysValid: "keysValid (cache st) \<Longrightarrow> keysValid (cache (elapse d st))"
  by (simp add: elapse_def Let_def keysValid_def)

lemma perform_keysValid:
  assumes "keysValid (cache st)"
  shows "keysValid (cache (perform up st a))"
proof (cases a)
  case (Decode nw v tok)
  with assms show ?thesis by (simp add: perform_def decodeVin_keysValid)
next
  case (Elapse d)
  with assms show ?thesis by (simp add: perform_def elapse_keysValid)
next
  case ClearCache
  then show ?thesis by (simp add: perform_def clearCache_def keysValid_def)
qed

lemma run_keysValid: "keysValid (cache st) \<Longrightarrow> keysValid (cache (run up st acts))"
  unfolding run_def by (induction acts arbitrary: st) (simp_all add: perform_keysValid)

lemma short_invalid: "\<not> isValidVinFormat toUpperCaseAscii shortVin"
  by (simp add: shortVin_def pattern_eval)

lemma lower_decode:
  "decodeVin toUpperCaseAscii civicNet lowerVin None newClient =
     (Resolved civicInfo, newClient\<lparr>sent := [GetNhtsa civicVin], cache := [civicVin \<mapsto> civicInfo]\<rparr>)"
  by (simp add: decodeVin_def lower_valid lower_upper civic_direct Let_def hasToken_def newClient_def)

lemma noTimerFor_iff: "noTimerFor k st \<longleftrightarrow> k \<notin> snd ` set (timers st)"
  by (auto simp: noTimerFor_def list_ex_iff image_iff)

lemma dueBy_iff: "dueBy t ts k \<longleftrightarrow> (\<exists>w. (w, k) \<in> set ts \<and> w \<le> t)"
  by (auto simp: dueBy_def list_ex_iff)

lemma timersCached_miss: "timersCached st \<Longrightarrow> cache st k = None \<Longrightarrow> noTimerFor k st"
  by (auto simp: timersCached_def noTimerFor_iff list_all_iff)

lemma notFound_decode:
  "decodeVin toUpperCaseAscii notFoundNet civicVin None newClient = (Resolved notFoundInfo, afterNotFound)"
  by (simp add: decodeVin_def civic_valid civic_upper Let_def hasToken_def newClient_def
      directNhtsaCall_def notFoundNet_def response_ok_def notFoundInfo_def afterNotFound_def
      requiredData_def truthy_def extractVehicle_def findResult_def)

lemma afterNotFound_elapse: "elapse d afterNotFound = afterNotFound\<lparr>clock := d\<rparr>"
  by (simp add: elapse_def afterNotFound_def newClient_def dueBy_def Let_def fun_eq_iff)

lemma failure_decode:
  "decodeVin toUpperCaseAscii downNet lowerVin None newClient = (Resolved errorInfoRec, afterFailure)"
  by (simp add: decodeVin_def lower_valid lower_upper Let_def hasToken_def newClient_def
      directNhtsaCall_def downNet_def errorInfoRec_def afterFailure_def)

lemma afterFailure_early: "cache (elapse 299999 afterFailure) civicVin = Some errorInfoRec"
  by (simp add: elapse_def afterFailure_def newClient_def dueBy_def Let_def)

lemma afterFailure_late:
  "elapse 300000 afterFailure = newClient\<lparr>sent := [GetNhtsa civicVin], clock := 300000\<rparr>"
  by (simp add: elapse_def afterFailure_def newClient_def dueBy_def Let_def fun_eq_iff)

lemma decodeVin_timersCached:
  assumes "timersCached st"
  shows "timersCached (snd (decodeVin up nw v tok st))"
proof -
  obtain res st' where d: "decodeVin up nw v tok st = (res, st')" by force
  have n: "cache st (up v) = None \<Longrightarrow> up v \<notin> snd ` set (timers st)"
    using timersCached_miss[OF assms] by (simp add: noTimerFor_iff)
  from decodeVin_cases[OF d] assms n have "timersCached st'"
    by (elim disjE conjE exE) (auto simp: timersCached_def list_all_iff)
  with d show ?thesis by simp
qed

lemma elapse_timersCached:
  assumes "timersCached st"
  shows "timersCached (elapse d st)"
proof -
  have dist: "distinct (map snd (timers st))" and c: "\<forall>(w, k) \<in> set (timers st). cache st k \<noteq> None"
    using assms by (auto simp: timersCached_def list_all_iff)
  have inj: "inj_on snd (set (timers st))"
    using dist by (simp add: distinct_map)
  have "w = w'" if "(w, k) \<in> set (timers st)" "(w', k) \<in> set (timers st)" for w w' k
    using inj_onD [OF inj, of "(w, k)" "(w', k)"] that by simp
  then have "\<not> dueBy (clock st + d) (timers st) k"
    if "(w, k) \<in> set (timers st)" "\<not> w \<le> clock st + d" for w k
    using that by (auto simp: dueBy_iff)
  with c dist show ?thesis
    by (auto simp: timersCached_def elapse_def Let_def list_all_iff distinct_map_filter)
qed

text \<open>
  In a run each call of \<open>decodeVin\<close> is one step, so calls do not overlap. For such runs
  without \<open>clearCache\<close> a key that misses the cache has no pending timer. Calls that overlap
  in time are not covered: two of them can both pass the cache check before either writes.
\<close>

lemma run_timersCached:
  "timersCached st \<Longrightarrow> ClearCache \<notin> set acts \<Longrightarrow> timersCached (run up st acts)"
  unfolding run_def
proof (induction acts arbitrary: st)
  case Nil
  then show ?case by simp
next
  case (Cons a acts)
  then have "timersCached (perform up st a)"
    by (cases a) (simp_all add: perform_def decodeVin_timersCached elapse_timersCached)
  with Cons show ?case by simp
qed

lemma run_noTimerFor:
  assumes "ClearCache \<notin> set acts" and "cache (run up newClient acts) k = None"
  shows "noTimerFor k (run up newClient acts)"
proof -
  have "timersCached newClient" by (simp add: timersCached_def newClient_def)
  from timersCached_miss[OF run_timersCached[OF this assms(1)] assms(2)] show ?thesis .
qed

lemma decimal_length:
  "length (decimal n) = (if n < 10 then 1 else Suc (length (decimal (n div 10))))"
  by (subst decimal.simps) simp

lemma decimal_six:
  assumes "100000 \<le> n" and "n < 1000000"
  shows "length (decimal n) = 6"
proof -
  have "n div 10 div 10 div 10 div 10 div 10 < 10" using assms by simp
  moreover have "\<not> n div 10 div 10 div 10 div 10 < 10" using assms by simp
  moreover have "\<not> n div 10 div 10 div 10 < 10" using assms by simp
  moreover have "\<not> n div 10 div 10 < 10" using assms by simp
  moreover have "\<not> n div 10 < 10" using assms by simp
  moreover have "\<not> n < 10" using assms by simp
  ultimately show ?thesis
    by (simp add: decimal_length [of n] decimal_length [of "n div 10"]
        decimal_length [of "n div 10 div 10"] decimal_length [of "n div 10 div 10 div 10"]
        decimal_length [of "n div 10 div 10 div 10 div 10"]
        decimal_length [of "n div 10 div 10 div 10 div 10 div 10"])
qed

lemma vinPrefixes_length:
  assumes "i < 5"
  shows "length (vinPrefixes ! i) = 9"
proof -
  from assms have "i = 0 \<or> i = 1 \<or> i = 2 \<or> i = 3 \<or> i = 4" by arith
  then show ?thesis by (auto simp: vinPrefixes_def)
qed

lemma VIN_PATTERN_length: "VIN_PATTERN s \<Longrightarrow> length s = 17"
  by (simp add: VIN_PATTERN_def classRun_def)

lemma mock_decimal: "decimal 100000 = js ''100000''"
  by (simp add: decimal.simps)

lemma mock_detect: "detectVinPatterns True 0 0 = Some mockVin"
  by (simp add: detectVinPatterns_def vinPrefixes_def mock_decimal mockVin_def)

lemma handleScanResult_invalid: "\<not> validResult c \<Longrightarrow> handleScanResult c st = st"
  by (simp add: handleScanResult_def)



lemma onCandidate_duplicate: "data c = captured \<Longrightarrow> onCandidate captured st c = st"
  by (simp add: onCandidate_def offer_def)













lemma offer_Some:
  "offer seen c st = Some s \<Longrightarrow> data c \<noteq> seen \<and> s = handleScanResult c (st\<lparr>lastScan := data c\<rparr>)"
  by (simp add: offer_def split: if_splits)

lemma offer_None: "offer seen c st = None \<longleftrightarrow> data c = seen"
  by (simp add: offer_def)














lemma mock_invalid: "\<not> validResult \<lparr>rtype = Vin, data = mockVin\<rparr>"
  by (simp add: validResult_def mockVin_def pattern_eval)


lemma mock_neq: "mockVin \<noteq> []" "civicVin \<noteq> []" "civicVin \<noteq> mockVin"
  by (simp_all add: mockVin_def civicVin_def)









lemma held_prefixes:
  "scanned (dispatch [] startScanning (take (Suc 0) heldCandidates)) = []"
  "scanned (dispatch [] startScanning (take (Suc (Suc 0)) heldCandidates)) = []"
  by (simp_all add: heldCandidates_def dispatch_def onCandidate_def offer_def mock_neq
      handleScanResult_invalid [OF mock_invalid] startScanning_def)

lemma endpoint_status:
  assumes "truthy v"
  shows "fst (fst (decodeVinEndpoint up None (Some (Some v)) registry stamp kv)) = 400
           \<longleftrightarrow> \<not> VIN_PATTERN (up v)"
  using assms
  by (simp add: decodeVinEndpoint_def apiErrorReply_def Let_def
      split: option.splits nhtsa_reply.splits)

lemma short_truthy: "truthy shortVin"
  by (simp add: truthy_def shortVin_def)

text \<open>Every other path that caches a record on a miss registers no timer, and time passing
  does not remove the record when no timer for its key is pending.\<close>

lemma other_records_no_timer:
  assumes "isValidVinFormat up v" and "cache st (up v) = None"
    and "hasToken tok \<or> \<not> nhtsaFails nw"
    and "decodeVin up nw v tok st = (Resolved r, st')" and "noTimerFor (up v) st"
  shows "timers st' = timers st \<and> cache (elapse d st') (up v) = Some r"
proof -
  from decodeVin_cases [OF assms(4)] assms(1,2,3)
  have t: "timers st' = timers st" and c: "cache st' = (cache st)(up v \<mapsto> r)"
    by auto
  have "\<not> dueBy (clock st' + d) (timers st') (up v)"
    using assms(5) t by (auto simp: dueBy_iff noTimerFor_iff image_iff)
  with t c show ?thesis by (simp add: elapse_def Let_def)
qed

section \<open>The claims\<close>

text \<open>
  C1. For every input string, \<open>isValidVinFormat\<close> is true exactly when the upper-cased
  string consists of 17 characters of \<open>[A-Z0-9]\<close> other than I, O and Q. The pattern of
  the scanner and of the server is the same one, and the server's endpoint answers 400 to a
  non-empty \<open>vin\<close> exactly when its upper-cased form is outside that grammar. The functions
  are total and two-valued by their types.
\<close>

theorem isValidVinFormat_grammar:
  "(isValidVinFormat up v \<longleftrightarrow> specVinGrammar (up v))
   \<and> (VIN_PATTERN s \<longleftrightarrow> specVinGrammar s)
   \<and> (truthy v \<longrightarrow>
        (fst (fst (decodeVinEndpoint up None (Some (Some v)) registry stamp kv)) = 400
           \<longleftrightarrow> \<not> specVinGrammar (up v)))"
proof (intro conjI impI)
  show "isValidVinFormat up v \<longleftrightarrow> specVinGrammar (up v)"
    unfolding isValidVinFormat_def by (rule VIN_PATTERN_spec)
  show "VIN_PATTERN s \<longleftrightarrow> specVinGrammar s"
    by (rule VIN_PATTERN_spec)
  assume "truthy v"
  then have "fst (fst (decodeVinEndpoint up None (Some (Some v)) registry stamp kv)) = 400
               \<longleftrightarrow> \<not> VIN_PATTERN (up v)"
    by (rule endpoint_status)
  then show "fst (fst (decodeVinEndpoint up None (Some (Some v)) registry stamp kv)) = 400
               \<longleftrightarrow> \<not> specVinGrammar (up v)"
    by (simp add: VIN_PATTERN_spec)
qed

theorem isValidVinFormat_grammar_witness:
  "isValidVinFormat toUpperCaseAscii (js ''1hgbh41jxmn109186'')
   \<and> specVinGrammar (toUpperCaseAscii (js ''1hgbh41jxmn109186''))
   \<and> \<not> isValidVinFormat toUpperCaseAscii (js ''1HGBH41JXMN1091O6'')
   \<and> \<not> specVinGrammar (toUpperCaseAscii (js ''1HGBH41JXMN1091O6''))
   \<and> \<not> VIN_PATTERN (js ''SHORT123'')
   \<and> \<not> specVinGrammar (js ''SHORT123'')
   \<and> truthy shortVin
   \<and> fst (fst (decodeVinEndpoint toUpperCaseAscii None (Some (Some shortVin)) NhtsaFetchRejects []
                  Map.empty)) = 400"
  using isValidVinFormat_grammar [of toUpperCaseAscii "js ''1hgbh41jxmn109186''" "js ''SHORT123''"
      NhtsaFetchRejects "[]" Map.empty]
    isValidVinFormat_grammar [of toUpperCaseAscii "js ''1HGBH41JXMN1091O6''" "js ''SHORT123''"
      NhtsaFetchRejects "[]" Map.empty]
    isValidVinFormat_grammar [of toUpperCaseAscii shortVin "js ''SHORT123''"
      NhtsaFetchRejects "[]" Map.empty]
    short_truthy short_invalid
  by (simp add: pattern_eval)

text \<open>
  C2. For a syntactically valid VIN whose upper-cased form has a record in the cache,
  \<open>decodeVin\<close> returns that record, whatever its \<open>valid\<close> flag, leaves the service as it
  was and sends no request.
\<close>

theorem decodeVin_cache_hit:
  assumes "isValidVinFormat up v" and "cache st (up v) = Some r"
  shows "decodeVin up nw v accessToken st = (Resolved r, st)
         \<and> sent (snd (decodeVin up nw v accessToken st)) = sent st"
  using assms by (simp add: decodeVin_def)

theorem decodeVin_cache_hit_witness:
  "isValidVinFormat toUpperCaseAscii lowerVin
   \<and> cache heldFailure (toUpperCaseAscii lowerVin)
       = Some (failureInfo civicVin (js ''Failed to decode VIN''))
   \<and> \<not> valid (failureInfo civicVin (js ''Failed to decode VIN''))
   \<and> decodeVin toUpperCaseAscii civicNet lowerVin (Some (js ''token'')) heldFailure
       = (Resolved (failureInfo civicVin (js ''Failed to decode VIN'')), heldFailure)
   \<and> sent (snd (decodeVin toUpperCaseAscii civicNet lowerVin (Some (js ''token'')) heldFailure))
       = sent heldFailure"
proof -
  have c: "cache heldFailure (toUpperCaseAscii lowerVin)
             = Some (failureInfo civicVin (js ''Failed to decode VIN''))"
    by (simp add: lower_upper heldFailure_def)
  have f: "\<not> valid (failureInfo civicVin (js ''Failed to decode VIN''))"
    by (simp add: failureInfo_def)
  show ?thesis
    using decodeVin_cache_hit [OF lower_valid c, of civicNet "Some (js ''token'')"] lower_valid c f
    by simp
qed

text \<open>
  C3. For a syntactically valid VIN that misses the cache: with an access token and a
  failing proxy call, \<open>decodeVin\<close> goes on to the registry and its outcome is the outcome of
  \<open>directNhtsaCall\<close>; without an access token no request to the proxy is ever sent, and the
  one request is the one to the registry.
\<close>

theorem decodeVin_fallback_order:
  "(isValidVinFormat up v \<and> cache st (up v) = None \<and> hasToken accessToken \<and> backendFails nw \<longrightarrow>
      fst (decodeVin up nw v accessToken st) = fst (directNhtsaCall nw (up v) st)
      \<and> sent (snd (decodeVin up nw v accessToken st)) =
          sent st @ (if backendReply nw = ImportRejects then []
                     else [PostDecodeVin (the accessToken) (up v)])
                  @ [GetNhtsa (up v)])
   \<and> (\<not> hasToken accessToken \<longrightarrow>
        sent (snd (decodeVin up nw v accessToken st)) = sent st
        \<or> sent (snd (decodeVin up nw v accessToken st)) = sent st @ [GetNhtsa (up v)])
   \<and> (isValidVinFormat up v \<and> cache st (up v) = None \<and> \<not> hasToken accessToken \<longrightarrow>
        fst (decodeVin up nw v accessToken st) =
          (if nhtsaFails nw then Resolved (failureInfo (up v) (js ''Failed to decode VIN''))
           else fst (directNhtsaCall nw (up v) st))
        \<and> sent (snd (decodeVin up nw v accessToken st)) = sent st @ [GetNhtsa (up v)])"
proof (intro conjI impI)
  assume a: "isValidVinFormat up v \<and> cache st (up v) = None \<and> hasToken accessToken \<and> backendFails nw"
  then obtain e where b: "backendCall nw (the accessToken) (up v) st =
     (Rejected e, st\<lparr>sent := sent st @ (if backendReply nw = ImportRejects then []
                                         else [PostDecodeVin (the accessToken) (up v)])\<rparr>)"
    using backendCall_fails by blast
  have d: "decodeVin up nw v accessToken st = directNhtsaCall nw (up v)
      (st\<lparr>sent := sent st @ (if backendReply nw = ImportRejects then []
                              else [PostDecodeVin (the accessToken) (up v)])\<rparr>)"
    using a b by (simp add: decodeVin_def Let_def)
  show "fst (decodeVin up nw v accessToken st) = fst (directNhtsaCall nw (up v) st)"
    unfolding d by (rule directNhtsaCall_fst)
  show "sent (snd (decodeVin up nw v accessToken st)) =
          sent st @ (if backendReply nw = ImportRejects then []
                     else [PostDecodeVin (the accessToken) (up v)])
                  @ [GetNhtsa (up v)]"
    unfolding d by (simp add: directNhtsaCall_sent)
next
  assume n: "\<not> hasToken accessToken"
  have s: "sent (snd (directNhtsaCall nw (up v) st)) = sent st @ [GetNhtsa (up v)]"
    by (rule directNhtsaCall_sent)
  show "sent (snd (decodeVin up nw v accessToken st)) = sent st
        \<or> sent (snd (decodeVin up nw v accessToken st)) = sent st @ [GetNhtsa (up v)]"
    using n s by (cases "directNhtsaCall nw (up v) st"; cases "fst (directNhtsaCall nw (up v) st)")
      (auto simp: decodeVin_def Let_def split: option.splits)
next
  assume a: "isValidVinFormat up v \<and> cache st (up v) = None \<and> \<not> hasToken accessToken"
  have s: "sent (snd (directNhtsaCall nw (up v) st)) = sent st @ [GetNhtsa (up v)]"
    by (rule directNhtsaCall_sent)
  show "sent (snd (decodeVin up nw v accessToken st)) = sent st @ [GetNhtsa (up v)]"
    using a s by (cases "directNhtsaCall nw (up v) st"; cases "fst (directNhtsaCall nw (up v) st)")
      (auto simp: decodeVin_def Let_def split: option.splits)
  obtain o1 s1 where d: "directNhtsaCall nw (up v) st = (o1, s1)" by force
  show "fst (decodeVin up nw v accessToken st) =
          (if nhtsaFails nw then Resolved (failureInfo (up v) (js ''Failed to decode VIN''))
           else fst (directNhtsaCall nw (up v) st))"
  proof (cases o1)
    case (Resolved r)
    with directNhtsaCall_resolved[OF d[unfolded Resolved]] a d show ?thesis
      by (simp add: decodeVin_def Let_def)
  next
    case (Rejected e)
    with directNhtsaCall_rejected[OF d[unfolded Rejected]] a d show ?thesis
      by (simp add: decodeVin_def Let_def)
  qed
qed

theorem decodeVin_fallback_order_witness:
  "isValidVinFormat toUpperCaseAscii civicVin \<and> cache newClient (toUpperCaseAscii civicVin) = None
   \<and> hasToken (Some (js ''token'')) \<and> backendFails civicNet \<and> \<not> hasToken None
   \<and> fst (decodeVin toUpperCaseAscii civicNet civicVin (Some (js ''token'')) newClient) = Resolved civicInfo
   \<and> sent (snd (decodeVin toUpperCaseAscii civicNet civicVin (Some (js ''token'')) newClient))
       = [PostDecodeVin (js ''token'') civicVin, GetNhtsa civicVin]
   \<and> fst (decodeVin toUpperCaseAscii civicNet civicVin None newClient) = Resolved civicInfo
   \<and> sent (snd (decodeVin toUpperCaseAscii civicNet civicVin None newClient)) = [GetNhtsa civicVin]"
proof -
  have h: "cache newClient (toUpperCaseAscii civicVin) = None" "hasToken (Some (js ''token''))"
    "backendFails civicNet" "\<not> hasToken None" "backendReply civicNet \<noteq> ImportRejects"
    "\<not> nhtsaFails civicNet" "sent newClient = []"
    by (simp_all add: newClient_def hasToken_def truthy_def backendFails_def nhtsaFails_def
        civicNet_def response_ok_def)
  show ?thesis
    using decodeVin_fallback_order [of toUpperCaseAscii civicVin newClient "Some (js ''token'')" civicNet]
      decodeVin_fallback_order [of toUpperCaseAscii civicVin newClient None civicNet]
      h civic_valid
    by (simp add: civic_upper civic_direct)
qed

text \<open>
  C4. The claim: whatever the network does, \<open>decodeVin\<close> resolves to a record. The code at a
  valid VIN, with an access token, when the proxy call and the registry call both fail: the
  call of \<open>directNhtsaCall\<close> inside the \<open>catch\<close> block is not guarded, and \<open>decodeVin\<close> rejects.
  (Without a token the same failure is turned into the record \<open>errorInfo\<close>.)
\<close>

theorem decodeVin_rejects_when_both_fail:
  "fst (decodeVin toUpperCaseAscii downNet civicVin (Some (js ''token'')) newClient)
     = Rejected NetworkFault"
  by (simp add: decodeVin_def civic_valid civic_upper Let_def hasToken_def truthy_def newClient_def
      backendCall_def directNhtsaCall_def downNet_def)

text \<open>
  C5. Every record that \<open>decodeVin\<close> resolves to has \<open>valid\<close> true exactly when year, make
  and model are all non-empty: on the cache of a service whose records have the property, with
  a proxy that answers as the endpoint of this repository does from a store whose records have
  it. The cache keeps the property, so it holds along every run from the empty cache.
\<close>

theorem decodeVin_valid_iff:
  assumes "allConsistent (cache st)" and "fromEndpoint up (backendReply nw)"
    and "decodeVin up nw v accessToken st = (Resolved r, st')"
  shows "(valid r \<longleftrightarrow> year r \<noteq> [] \<and> vmake r \<noteq> [] \<and> model r \<noteq> []) \<and> allConsistent (cache st')"
proof -
  have "consistent r \<and> allConsistent (cache st')"
    using decodeVin_cases[OF assms(3)] assms(1) fromEndpoint_consistent[OF assms(2)]
    by (elim disjE conjE exE) (auto simp: failureInfo_consistent allConsistent_upd, auto simp: allConsistent_def)
  then show ?thesis by (simp add: consistent_def)
qed

theorem decodeVin_valid_iff_witness:
  "allConsistent (cache newClient) \<and> fromEndpoint toUpperCaseAscii (backendReply proxyNet)
   \<and> decodeVin toUpperCaseAscii proxyNet lowerVin (Some (js ''token'')) newClient
       = (Resolved civicInfo,
          newClient\<lparr>sent := [PostDecodeVin (js ''token'') civicVin], cache := [civicVin \<mapsto> civicInfo]\<rparr>)
   \<and> valid civicInfo \<and> year civicInfo \<noteq> [] \<and> vmake civicInfo \<noteq> [] \<and> model civicInfo \<noteq> []
   \<and> allConsistent [civicVin \<mapsto> civicInfo]"
proof -
  have a: "allConsistent (cache newClient)" by (simp add: allConsistent_def newClient_def)
  have d: "decodeVin toUpperCaseAscii proxyNet lowerVin (Some (js ''token'')) newClient
       = (Resolved civicInfo,
          newClient\<lparr>sent := [PostDecodeVin (js ''token'') civicVin], cache := [civicVin \<mapsto> civicInfo]\<rparr>)"
    by (simp add: decodeVin_def lower_valid lower_upper Let_def hasToken_def truthy_def newClient_def
        backendCall_def proxyNet_def response_ok_def)
  show ?thesis
    using decodeVin_valid_iff [OF a proxy_fromEndpoint d] a proxy_fromEndpoint d civicInfo_fields(1)
    by simp
qed

text \<open>
  C6, as stated, fails. The record that \<open>directNhtsaCall\<close> caches when the registry answers
  without year, make and model has \<open>valid\<close> false and no timer: a day later it is still in the
  cache, and a decode of the same VIN returns it without any request.
\<close>

theorem not_found_record_never_expires:
  "fst (decodeVin toUpperCaseAscii notFoundNet civicVin None newClient) = Resolved notFoundInfo
   \<and> \<not> valid notFoundInfo
   \<and> cache (snd (decodeVin toUpperCaseAscii notFoundNet civicVin None newClient)) civicVin
       = Some notFoundInfo
   \<and> cache (elapse 86400000 (snd (decodeVin toUpperCaseAscii notFoundNet civicVin None newClient)))
        civicVin = Some notFoundInfo
   \<and> decodeVin toUpperCaseAscii civicNet civicVin (Some (js ''token''))
        (elapse 86400000 (snd (decodeVin toUpperCaseAscii notFoundNet civicVin None newClient)))
       = (Resolved notFoundInfo,
          elapse 86400000 (snd (decodeVin toUpperCaseAscii notFoundNet civicVin None newClient)))"
proof -
  have c: "cache (afterNotFound\<lparr>clock := 86400000\<rparr>) (toUpperCaseAscii civicVin) = Some notFoundInfo"
    by (simp add: civic_upper afterNotFound_def)
  have "decodeVin toUpperCaseAscii civicNet civicVin (Some (js ''token'')) (afterNotFound\<lparr>clock := 86400000\<rparr>)
          = (Resolved notFoundInfo, afterNotFound\<lparr>clock := 86400000\<rparr>)"
    using civic_valid c by (simp add: decodeVin_def)
  moreover have "\<not> valid notFoundInfo"
    by (simp add: notFoundInfo_def extractVehicle_def)
  moreover have "cache afterNotFound civicVin = Some notFoundInfo"
    by (simp add: afterNotFound_def)
  ultimately show ?thesis
    by (simp add: notFound_decode afterNotFound_elapse)
qed

text \<open>
  C6, amended. The record \<open>errorInfo\<close> (\<open>Failed to decode VIN\<close>), which \<open>decodeVin\<close> caches when the
  registry call fails and there is no access token, is in the cache at every time before five
  minutes have passed since the insert, and is absent from then on, so that a decode of the same
  VIN sends a request again; provided no timer for that VIN was pending at the insert.
\<close>

theorem failure_record_expiry:
  assumes "isValidVinFormat up v" and "cache st (up v) = None" and "\<not> hasToken accessToken"
    and "nhtsaFails nw" and "noTimerFor (up v) st"
  shows "fst (decodeVin up nw v accessToken st) = Resolved (failureInfo (up v) (js ''Failed to decode VIN''))
    \<and> (\<forall>d. d < 5 * 60 * 1000 \<longrightarrow>
          cache (elapse d (snd (decodeVin up nw v accessToken st))) (up v)
            = Some (failureInfo (up v) (js ''Failed to decode VIN'')))
    \<and> (\<forall>d. 5 * 60 * 1000 \<le> d \<longrightarrow>
          cache (elapse d (snd (decodeVin up nw v accessToken st))) (up v) = None
          \<and> (\<forall>nw2 tok2.
                sent (snd (decodeVin up nw2 v tok2 (elapse d (snd (decodeVin up nw v accessToken st)))))
                  \<noteq> sent (elapse d (snd (decodeVin up nw v accessToken st)))))"
proof -
  obtain res st' where d: "decodeVin up nw v accessToken st = (res, st')" by force
  from decodeVin_cases[OF d] assms
  have res: "res = Resolved (failureInfo (up v) (js ''Failed to decode VIN''))"
    and c: "cache st' = (cache st)(up v \<mapsto> failureInfo (up v) (js ''Failed to decode VIN''))"
    and t: "timers st' = timers st @ [(clock st + 300000, up v)]" and k: "clock st' = clock st"
    by auto
  have early: "cache (elapse e st') (up v) = Some (failureInfo (up v) (js ''Failed to decode VIN''))"
    if "e < 300000" for e
    using that assms(5) by (auto simp: elapse_def Let_def c t k dueBy_iff noTimerFor_iff image_iff)
  have late: "cache (elapse e st') (up v) = None" if "300000 \<le> e" for e
    using that by (auto simp: elapse_def Let_def c t k dueBy_iff)
  have fresh: "sent (snd (decodeVin up nw2 v tok2 s)) \<noteq> sent s" if "cache s (up v) = None" for nw2 tok2 s
  proof (cases "hasToken tok2")
    case True
    obtain o1 s1 where b: "backendCall nw2 (the tok2) (up v) s = (o1, s1)" by force
    show ?thesis
    proof (cases o1)
      case (Resolved r)
      with backendCall_resolved[OF b[unfolded Resolved]] b True assms(1) that show ?thesis
        by (simp add: decodeVin_def Let_def)
    next
      case (Rejected x)
      have "length (sent s1) \<ge> length (sent s)"
        using b by (auto simp: backendCall_def Let_def split: backend_reply.splits if_splits option.splits)
      moreover have "decodeVin up nw2 v tok2 s = directNhtsaCall nw2 (up v) s1"
        using Rejected b True assms(1) that by (simp add: decodeVin_def Let_def)
      ultimately have "length (sent (snd (decodeVin up nw2 v tok2 s))) > length (sent s)"
        by (simp add: directNhtsaCall_sent)
      then show ?thesis by auto
    qed
  next
    case False
    have "sent (snd (decodeVin up nw2 v tok2 s)) = sent s @ [GetNhtsa (up v)]"
      using False assms(1) that directNhtsaCall_sent[of nw2 "up v" s]
      by (cases "directNhtsaCall nw2 (up v) s"; cases "fst (directNhtsaCall nw2 (up v) s)")
         (auto simp: decodeVin_def Let_def)
    then show ?thesis by simp
  qed
  show ?thesis
    using res early late fresh d by simp
qed

theorem failure_record_expiry_witness:
  "isValidVinFormat toUpperCaseAscii lowerVin \<and> cache newClient (toUpperCaseAscii lowerVin) = None
   \<and> \<not> hasToken None \<and> nhtsaFails downNet \<and> noTimerFor (toUpperCaseAscii lowerVin) newClient
   \<and> fst (decodeVin toUpperCaseAscii downNet lowerVin None newClient) = Resolved errorInfoRec
   \<and> cache (elapse 299999 afterFailure) civicVin = Some errorInfoRec
   \<and> cache (elapse 300000 afterFailure) civicVin = None
   \<and> sent (snd (decodeVin toUpperCaseAscii civicNet lowerVin None (elapse 300000 afterFailure)))
       \<noteq> sent (elapse 300000 afterFailure)"
proof -
  have h: "cache newClient (toUpperCaseAscii lowerVin) = None" "\<not> hasToken None" "nhtsaFails downNet"
    "noTimerFor (toUpperCaseAscii lowerVin) newClient"
    by (simp_all add: newClient_def hasToken_def nhtsaFails_def downNet_def noTimerFor_def)
  note T = failure_record_expiry [OF lower_valid h, unfolded failure_decode snd_conv fst_conv]
  have a: "cache (elapse 299999 afterFailure) (toUpperCaseAscii lowerVin)
             = Some (failureInfo (toUpperCaseAscii lowerVin) (js ''Failed to decode VIN''))"
    using T [THEN conjunct2, THEN conjunct1, rule_format, of 299999] by simp
  have b: "cache (elapse 300000 afterFailure) (toUpperCaseAscii lowerVin) = None
           \<and> sent (snd (decodeVin toUpperCaseAscii civicNet lowerVin None (elapse 300000 afterFailure)))
               \<noteq> sent (elapse 300000 afterFailure)"
    using T [THEN conjunct2, THEN conjunct2, rule_format, of 300000] by simp
  show ?thesis
    using a b h lower_valid T [THEN conjunct1]
    by (simp add: lower_upper failure_decode errorInfoRec_def)
qed

text \<open>
  C7. For every string that passes the syntax check, the record that \<open>decodeVin\<close> resolves to is in
  the cache under the upper-cased VIN when the call returns, whether the decode succeeded or
  failed. In particular, decoding \<open>1HGBH41JXMN109186\<close> against a registry reply with Model Year
  2010, Make Honda, Model Civic gives a valid record with these three fields, and the cache
  holds it under that key.
\<close>

theorem decodeVin_writes_back:
  "(isValidVinFormat up v \<and> decodeVin up nw v accessToken st = (Resolved r, st')
      \<longrightarrow> cache st' (up v) = Some r)
   \<and> fst (decodeVin toUpperCaseAscii civicNet civicVin None newClient) = Resolved civicInfo
   \<and> valid civicInfo \<and> year civicInfo = js ''2010'' \<and> vmake civicInfo = js ''Honda''
   \<and> model civicInfo = js ''Civic''
   \<and> cache (snd (decodeVin toUpperCaseAscii civicNet civicVin None newClient)) civicVin
       = Some civicInfo"
proof (intro conjI impI)
  assume a: "isValidVinFormat up v \<and> decodeVin up nw v accessToken st = (Resolved r, st')"
  then have d: "decodeVin up nw v accessToken st = (Resolved r, st')" by simp
  from decodeVin_cases[OF d] a show "cache st' (up v) = Some r"
    by (elim disjE conjE exE) auto
qed (simp_all add: civic_decode civicInfo_fields)

theorem decodeVin_writes_back_witness:
  "isValidVinFormat toUpperCaseAscii lowerVin
   \<and> decodeVin toUpperCaseAscii downNet lowerVin None newClient
       = (Resolved (failureInfo civicVin (js ''Failed to decode VIN'')),
          newClient\<lparr>sent := [GetNhtsa civicVin], timers := [(300000, civicVin)],
                    cache := [civicVin \<mapsto> failureInfo civicVin (js ''Failed to decode VIN'')]\<rparr>)
   \<and> cache (newClient\<lparr>sent := [GetNhtsa civicVin], timers := [(300000, civicVin)],
                    cache := [civicVin \<mapsto> failureInfo civicVin (js ''Failed to decode VIN'')]\<rparr>)
        (toUpperCaseAscii lowerVin)
       = Some (failureInfo civicVin (js ''Failed to decode VIN''))"
proof -
  have d: "decodeVin toUpperCaseAscii downNet lowerVin None newClient
       = (Resolved (failureInfo civicVin (js ''Failed to decode VIN'')),
          newClient\<lparr>sent := [GetNhtsa civicVin], timers := [(300000, civicVin)],
                    cache := [civicVin \<mapsto> failureInfo civicVin (js ''Failed to decode VIN'')]\<rparr>)"
    by (simp add: decodeVin_def lower_valid lower_upper Let_def hasToken_def newClient_def
        directNhtsaCall_def downNet_def)
  show ?thesis
    using decodeVin_writes_back [of toUpperCaseAscii lowerVin downNet None newClient
        "failureInfo civicVin (js ''Failed to decode VIN'')"
        "newClient\<lparr>sent := [GetNhtsa civicVin], timers := [(300000, civicVin)],
                    cache := [civicVin \<mapsto> failureInfo civicVin (js ''Failed to decode VIN'')]\<rparr>"]
      lower_valid d
    by simp
qed



text \<open>
  C9. The claim: when the VIN-region heuristic fires, the payload it makes up matches the
  17-character VIN grammar. The code: a prefix of 9 characters followed by a number between
  100000 and 999999, which is 15 characters for every draw; the payload never matches
  \<open>VIN_PATTERN\<close>, and \<open>handleScanResult\<close> drops the candidate of kind \<open>vin\<close> made from it.
\<close>

theorem detectVinPatterns_never_matches:
  assumes "i < 5" and "j < 900000"
  shows "\<exists>p. detectVinPatterns True i j = Some p \<and> length p = 15
             \<and> \<not> VIN_PATTERN p
             \<and> handleScanResult \<lparr>rtype = Vin, data = p\<rparr> st = st"
proof -
  let ?p = "vinPrefixes ! i @ decimal (j + 100000)"
  have l: "length ?p = 15"
    using assms by (simp add: vinPrefixes_length decimal_six)
  then have n: "\<not> VIN_PATTERN ?p" by (auto dest: VIN_PATTERN_length)
  then have "handleScanResult \<lparr>rtype = Vin, data = ?p\<rparr> st = st"
    by (simp add: handleScanResult_def validResult_def)
  with l n show ?thesis by (simp add: detectVinPatterns_def Let_def)
qed

theorem detectVinPatterns_never_matches_witness:
  "(0::nat) < 5 \<and> (0::nat) < 900000
   \<and> detectVinPatterns True 0 0 = Some mockVin \<and> length mockVin = 15 \<and> \<not> VIN_PATTERN mockVin
   \<and> handleScanResult \<lparr>rtype = Vin, data = mockVin\<rparr> startScanning = startScanning"
  using detectVinPatterns_never_matches [of 0 0 startScanning]
  by (simp add: mock_detect)

text \<open>
  C10. Along every run from the empty cache (decodes, time passing, \<open>clearCache\<close>), every key of
  the cache matches the VIN pattern: \<open>decodeVin\<close> returns its invalid-format record with the
  service untouched, and a call that changes the cache writes one record under the upper-cased
  form of a VIN that passed the syntax check.
\<close>

theorem cache_keys_valid:
  "keysValid (cache (run up newClient acts))
   \<and> (\<not> isValidVinFormat up v \<longrightarrow> snd (decodeVin up nw v accessToken st) = st)
   \<and> (cache (snd (decodeVin up nw v accessToken st)) \<noteq> cache st \<longrightarrow>
        isValidVinFormat up v \<and>
        (\<exists>r. cache (snd (decodeVin up nw v accessToken st)) = (cache st)(up v \<mapsto> r)))"
proof (intro conjI impI)
  show "keysValid (cache (run up newClient acts))"
    by (rule run_keysValid) (simp add: keysValid_def newClient_def)
next
  assume "\<not> isValidVinFormat up v"
  then show "snd (decodeVin up nw v accessToken st) = st" by (simp add: decodeVin_def)
next
  assume c: "cache (snd (decodeVin up nw v accessToken st)) \<noteq> cache st"
  obtain res st' where d: "decodeVin up nw v accessToken st = (res, st')" by force
  from decodeVin_cases[OF d] c d show "isValidVinFormat up v" by auto
  from decodeVin_cases[OF d] c d
  show "\<exists>r. cache (snd (decodeVin up nw v accessToken st)) = (cache st)(up v \<mapsto> r)"
    by (elim disjE conjE exE) auto
qed

theorem cache_keys_valid_witness:
  "cache (run toUpperCaseAscii newClient [Decode civicNet lowerVin None, Decode downNet shortVin None])
     civicVin = Some civicInfo
   \<and> VIN_PATTERN civicVin
   \<and> \<not> isValidVinFormat toUpperCaseAscii shortVin
   \<and> snd (decodeVin toUpperCaseAscii downNet shortVin None newClient) = newClient
   \<and> cache (snd (decodeVin toUpperCaseAscii civicNet lowerVin None newClient)) \<noteq> cache newClient
   \<and> isValidVinFormat toUpperCaseAscii lowerVin"
proof -
  have r: "run toUpperCaseAscii newClient [Decode civicNet lowerVin None, Decode downNet shortVin None]
        = newClient\<lparr>sent := [GetNhtsa civicVin], cache := [civicVin \<mapsto> civicInfo]\<rparr>"
    by (simp add: run_def perform_def lower_decode) (simp add: decodeVin_def short_invalid)
  have c: "cache (snd (decodeVin toUpperCaseAscii civicNet lowerVin None newClient)) \<noteq> cache newClient"
  proof
    assume "cache (snd (decodeVin toUpperCaseAscii civicNet lowerVin None newClient)) = cache newClient"
    then have "[civicVin \<mapsto> civicInfo] civicVin = cache newClient civicVin"
      by (simp add: lower_decode)
    then show False by (simp add: newClient_def)
  qed
  show ?thesis
    using cache_keys_valid [of toUpperCaseAscii
        "[Decode civicNet lowerVin None, Decode downNet shortVin None]" shortVin downNet None newClient]
      cache_keys_valid [of toUpperCaseAscii "[]" lowerVin civicNet None newClient]
      r c short_invalid
    by (simp add: keysValid_def)
qed

end
